theory Spec2Isabelle
  imports Main "HOL-Library.Word" "HOL-Library.Signed_Division"
begin

section \<open>Constants of the Redbook format (audiocd.go)\<close>

definition SampleRate :: nat where
  "SampleRate = 44100"

definition BitsPerSample :: nat where
  "BitsPerSample = 16"

definition BytesPerSample :: nat where
  "BytesPerSample = BitsPerSample div 8"

definition Channels :: nat where
  "Channels = 2"

definition SectorsPerSecond :: nat where
  "SectorsPerSecond = 75"

definition SamplesPerSector :: nat where
  "SamplesPerSector = SampleRate div SectorsPerSecond"

definition BytesPerSector :: nat where
  "BytesPerSector = SampleRate * Channels * BytesPerSample div SectorsPerSecond"

section \<open>Machine integers\<close>

text \<open>
  Go's \<open>int64\<close> (and \<open>int\<close> on a 64-bit platform), C's \<open>int\<close> and the unsigned
  conversions are written as wrap-arounds on \<open>int\<close>. Go's \<open>/\<close> and \<open>%\<close> truncate
  towards zero: they are \<open>sdiv\<close> and \<open>smod\<close>.
\<close>

definition int64 :: "int \<Rightarrow> int" where
  "int64 x = (x + 2 ^ 63) mod 2 ^ 64 - 2 ^ 63"

definition int32 :: "int \<Rightarrow> int" where
  "int32 x = (x + 2 ^ 31) mod 2 ^ 32 - 2 ^ 31"

definition uint32 :: "int \<Rightarrow> int" where
  "uint32 x = x mod 2 ^ 32"

definition uint8 :: "int \<Rightarrow> int" where
  "uint8 x = x mod 2 ^ 8"

section \<open>Errors and panics (the unnamed errors file, fmt.Errorf, runtime panics)\<close>

text \<open>
  \<open>ErrNotOpen\<close>, \<open>os.ErrClosed\<close> and \<open>fs.ErrClosed\<close> are one value, \<open>ErrClosed\<close>;
  \<open>ErrNoDrive\<close> is \<open>fs.ErrNotExist\<close>. \<open>Errorf\<close> carries the message of a
  \<open>fmt.Errorf\<close>. A Go error result is an \<open>error option\<close>, \<open>None\<close> for \<open>nil\<close>.
\<close>

datatype error =
    ErrClosed
  | ErrNoDrive
  | AudioCDError int
  | Errorf string

text \<open>A call either returns its results or panics (slice bounds, index out of range).\<close>

datatype 'a outcome = Returns 'a | Panics

section \<open>The libcdio boundary (the C calls of bindings.go)\<close>

type_synonym byte = "8 word"

text \<open>
  Every call into libcdio is recorded with its arguments. For
  \<open>cdio_read_audio_sectors\<close> the record holds the length of the Go slice whose first
  element is passed, the start sector and the sector count.
\<close>

datatype dev_call =
    CdioOpen "string option"
  | CdioDestroy nat
  | CdioGetHwinfo
  | CdioGetNumTracks
  | CdioGetFirstTrackNum
  | CdioGetTrackChannels int
  | CdioGetTrackCopyPermit int
  | CdioGetTrackPreemphasis int
  | CdioGetTrackFormat int
  | CdioGetTrackLsn int
  | CdioGetTrackSecCount int
  | CdioSetSpeed int
  | CdioReadAudioSectors nat int nat
  | CdioEjectMedia "nat option"

text \<open>
  The drive and libcdio are a parameter: what each call answers, given the calls made
  before it. The constants of libcdio's headers that bindings.go compares against are
  fields of the same record.
\<close>

record device =
  cdio_open :: "dev_call list \<Rightarrow> string option \<Rightarrow> nat option"
  cdio_ret :: "dev_call list \<Rightarrow> dev_call \<Rightarrow> int"
  cdio_data :: "dev_call list \<Rightarrow> dev_call \<Rightarrow> byte list"
  cdio_hwinfo :: "dev_call list \<Rightarrow> (string \<times> string \<times> string) option"
  CDIO_INVALID_TRACK :: int
  CDIO_INVALID_LSN :: int
  CDIO_TRACK_FLAG_TRUE :: int
  TRACK_FORMAT_AUDIO :: int

section \<open>The data model (audiocd.go)\<close>

record TrackPosition =
  NumChannels :: int
  IsAudio :: bool
  IsCopyPermitted :: bool
  IsPreemphasisEnabled :: bool
  TrackNum :: int
  StartSector :: int
  LengthSectors_of :: int

definition ContainsSector :: "TrackPosition \<Rightarrow> int \<Rightarrow> bool" where
  "ContainsSector t sector \<longleftrightarrow>
     sector \<ge> StartSector t \<and> sector < int64 (StartSector t + LengthSectors_of t)"

text \<open>
  \<open>buf\<close> is the unread part of the \<open>bytes.Buffer\<close>; \<open>sbuf\<close> is \<open>None\<close> for a nil
  slice; \<open>cdio\<close> is \<open>None\<close> for a nil pointer. \<open>calls\<close> is not a field of the Go
  struct: it is the history of libcdio calls made so far.
\<close>

record AudioCD =
  Device :: string
  buf :: "byte list"
  sbuf :: "byte list option"
  bufferedOffset :: int
  trueOffset :: int
  cdio :: "nat option"
  calls :: "dev_call list"

definition slen :: "byte list option \<Rightarrow> nat" where
  "slen sb = (case sb of None \<Rightarrow> 0 | Some b \<Rightarrow> length b)"

definition sbytes :: "byte list option \<Rightarrow> byte list" where
  "sbytes sb = (case sb of None \<Rightarrow> [] | Some b \<Rightarrow> b)"

definition call_int :: "device \<Rightarrow> AudioCD \<Rightarrow> dev_call \<Rightarrow> AudioCD \<times> int" where
  "call_int D cd c = (cd\<lparr>calls := calls cd @ [c]\<rparr>, cdio_ret D (calls cd) c)"

text \<open>What a C function writing \<open>d\<close> through a pointer to a Go slice \<open>p\<close> leaves in \<open>p\<close>.\<close>

definition overwrite :: "byte list \<Rightarrow> byte list \<Rightarrow> byte list" where
  "overwrite p d = take (length p) d @ drop (length d) p"

section \<open>bindings.go\<close>

definition openDrive :: "device \<Rightarrow> AudioCD \<Rightarrow> AudioCD \<times> error option" where
  "openDrive D cd =
     (let arg = (if Device cd = [] then None else Some (Device cd));
          p_cdio = cdio_open D (calls cd) arg;
          cd1 = cd\<lparr>calls := calls cd @ [CdioOpen arg]\<rparr>
      in case p_cdio of
           None \<Rightarrow> (cd1, Some ErrNoDrive)
         | Some h \<Rightarrow> (cd1\<lparr>cdio := Some h\<rparr>, None))"

definition join_space :: "string list \<Rightarrow> string" where
  "join_space ss = (case ss of [] \<Rightarrow> [] | s # rest \<Rightarrow> s @ concat (map (\<lambda>t. '' '' @ t) rest))"

definition model :: "device \<Rightarrow> AudioCD \<Rightarrow> AudioCD \<times> string" where
  "model D cd =
     (let cd1 = cd\<lparr>calls := calls cd @ [CdioGetHwinfo]\<rparr>
      in case cdio_hwinfo D (calls cd) of
           None \<Rightarrow> (cd1, [])
         | Some (vendor, mdl, revision) \<Rightarrow> (cd1, join_space [vendor, mdl, revision]))"

definition trackCount :: "device \<Rightarrow> AudioCD \<Rightarrow> AudioCD \<times> int" where
  "trackCount D cd = (let (cd1, r) = call_int D cd CdioGetNumTracks in (cd1, uint8 r))"

fun toc_loop ::
  "device \<Rightarrow> int \<Rightarrow> nat list \<Rightarrow> AudioCD \<Rightarrow> TrackPosition list
     \<Rightarrow> AudioCD \<times> TrackPosition list \<times> error option" where
  "toc_loop D t1 [] cd acc = (cd, acc, None)"
| "toc_loop D t1 (i # rest) cd acc =
     (let tt = uint8 (t1 + int i);
          (cd1, channels) = call_int D cd (CdioGetTrackChannels tt);
          (cd2, copy) = call_int D cd1 (CdioGetTrackCopyPermit tt);
          (cd3, pre) = call_int D cd2 (CdioGetTrackPreemphasis tt);
          (cd4, fmt) = call_int D cd3 (CdioGetTrackFormat tt);
          (cd5, lsn) = call_int D cd4 (CdioGetTrackLsn tt)
      in if int32 lsn = CDIO_INVALID_LSN D
         then (cd5, [], Some (Errorf ''libcdio: CDIO_INVALID_LSN''))
         else
           (let (cd6, cnt) = call_int D cd5 (CdioGetTrackSecCount tt)
            in if uint32 cnt = 0
               then (cd6, [], Some (Errorf ''libcdio: CDIO_INVALID_LSN''))
               else toc_loop D t1 rest cd6
                      (acc @ [\<lparr>NumChannels = channels,
                               IsAudio = (fmt = TRACK_FORMAT_AUDIO D),
                               IsCopyPermitted = (copy = CDIO_TRACK_FLAG_TRUE D),
                               IsPreemphasisEnabled = (pre = CDIO_TRACK_FLAG_TRUE D),
                               TrackNum = t1 + int i,
                               StartSector = int32 lsn,
                               LengthSectors_of = uint32 cnt\<rparr>])))"

text \<open>
  \<open>toc\<close> is only called with the result of \<open>TrackCount\<close> on an open stream, a
  \<open>uint8\<close> value, so \<open>make\<close> never sees a negative length. The loop body is
  \<open>toc_loop\<close>; a nil table is \<open>[]\<close>.
\<close>

definition toc :: "device \<Rightarrow> AudioCD \<Rightarrow> int \<Rightarrow> AudioCD \<times> TrackPosition list \<times> error option" where
  "toc D cd ntracks =
     (let (cd1, r) = call_int D cd CdioGetFirstTrackNum;
          t1 = uint8 r
      in if t1 = CDIO_INVALID_TRACK D
         then (cd1, [], Some (Errorf ''libcdio: CDIO_INVALID_TRACK''))
         else toc_loop D t1 [0..<nat ntracks] cd1 [])"

definition setSpeed :: "device \<Rightarrow> AudioCD \<Rightarrow> int \<Rightarrow> AudioCD \<times> error option" where
  "setSpeed D cd x =
     (let (cd1, err) = call_int D cd (CdioSetSpeed (int32 x))
      in if err \<noteq> 0 then (cd1, Some (AudioCDError err)) else (cd1, None))"

text \<open>
  \<open>readAudioSectors\<close> takes the slice \<open>p\<close> and gives back what the drive has left in it.
  The start sector is computed from \<open>trueOffset\<close>; \<open>&p[0]\<close> panics on an empty slice.
\<close>

definition readAudioSectors ::
  "device \<Rightarrow> AudioCD \<Rightarrow> byte list \<Rightarrow> nat \<Rightarrow> AudioCD \<times> byte list \<times> error option outcome" where
  "readAudioSectors D cd p nsectors =
     (if length p \<noteq> nsectors * BytesPerSector
      then (cd, p, Returns (Some (Errorf ''audiocd: invalid buffer size'')))
      else
        (let start = uint32 (trueOffset cd sdiv int BytesPerSector)
         in if p = [] then (cd, p, Panics)
            else
              (let c = CdioReadAudioSectors (length p) (int32 start) (nsectors mod 2 ^ 32);
                   (cd1, err) = call_int D cd c;
                   p1 = overwrite p (cdio_data D (calls cd) c)
               in if err \<noteq> 0 then (cd1, p1, Returns (Some (AudioCDError err)))
                  else (cd1, p1, Returns None))))"

definition ejectMedia :: "device \<Rightarrow> AudioCD \<Rightarrow> AudioCD \<times> error option" where
  "ejectMedia D cd =
     (let (cd1, err) = call_int D cd (CdioEjectMedia (cdio cd))
      in if err \<noteq> 0 then (cd1, Some (AudioCDError err))
         else (cd1\<lparr>cdio := None\<rparr>, None))"

definition closeDrive :: "AudioCD \<Rightarrow> nat \<Rightarrow> AudioCD" where
  "closeDrive cd h = cd\<lparr>calls := calls cd @ [CdioDestroy h]\<rparr>"

section \<open>audiocd.go\<close>

definition IsOpen :: "AudioCD \<Rightarrow> bool" where
  "IsOpen cd = (if cdio cd = None then False else True)"

definition SetSpeed :: "device \<Rightarrow> AudioCD \<Rightarrow> int \<Rightarrow> AudioCD \<times> error option" where
  "SetSpeed D cd x =
     (if \<not> IsOpen cd then (cd, Some ErrClosed)
      else setSpeed D cd (if x = - 1 then 65535 else x))"

text \<open>\<open>cd.buf.Grow(BytesPerSector)\<close> only reserves capacity: it has no counterpart here.\<close>

definition Open :: "device \<Rightarrow> AudioCD \<Rightarrow> AudioCD \<times> error option" where
  "Open D cd =
     (if IsOpen cd then (cd, None)
      else
        (let (cd1, err) = openDrive D cd
         in if err \<noteq> None then (cd1, err)
            else
              (let (cd2, err2) = SetSpeed D cd1 (- 1)
               in if err2 \<noteq> None then (cd2, err2)
                  else (cd2\<lparr>buf := [], bufferedOffset := 0, trueOffset := 0\<rparr>, None))))"

definition Model :: "device \<Rightarrow> AudioCD \<Rightarrow> AudioCD \<times> string" where
  "Model D cd = (if \<not> IsOpen cd then (cd, []) else model D cd)"

definition TrackCount :: "device \<Rightarrow> AudioCD \<Rightarrow> AudioCD \<times> int" where
  "TrackCount D cd = (if \<not> IsOpen cd then (cd, - 1) else trackCount D cd)"

definition TOC :: "device \<Rightarrow> AudioCD \<Rightarrow> AudioCD \<times> TrackPosition list \<times> error option" where
  "TOC D cd =
     (if \<not> IsOpen cd then (cd, [], Some ErrClosed)
      else (let (cd1, n) = TrackCount D cd in toc D cd1 n))"

text \<open>\<open>toc[len(toc)-1]\<close> panics when the table is empty.\<close>

definition LengthSectors :: "device \<Rightarrow> AudioCD \<Rightarrow> AudioCD \<times> (int \<times> error option) outcome" where
  "LengthSectors D cd =
     (if \<not> IsOpen cd then (cd, Returns (- 1, Some ErrClosed))
      else
        (let (cd1, tc, err) = TOC D cd
         in if err \<noteq> None then (cd1, Returns (- 1, err))
            else if tc = [] then (cd1, Panics)
            else (cd1, Returns (int64 (StartSector (last tc) + LengthSectors_of (last tc)), None))))"

definition readSectors ::
  "device \<Rightarrow> AudioCD \<Rightarrow> byte list \<Rightarrow> AudioCD \<times> byte list \<times> (int \<times> error option) outcome" where
  "readSectors D cd p =
     (if \<not> IsOpen cd then (cd, p, Returns (0, Some ErrClosed))
      else if length p = 0 then (cd, p, Returns (0, None))
      else if length p mod BytesPerSector \<noteq> 0
      then (cd, p, Returns (0, Some (Errorf ''audiocd: must read complete sectors'')))
      else
        (let nsectors = length p div BytesPerSector
         in case readAudioSectors D cd p nsectors of
              (cd1, p1, Panics) \<Rightarrow> (cd1, p1, Panics)
            | (cd1, p1, Returns (Some e)) \<Rightarrow> (cd1, p1, Returns (0, Some e))
            | (cd1, p1, Returns None) \<Rightarrow> (cd1, p1, Returns (int (length p), None))))"

text \<open>
  \<open>readSectors\<close> is handed \<open>cd.sbuf\<close> itself, so what the drive writes stays in the
  scratch buffer. The two callers pass 1 and \<open>len(p)/BytesPerSector + 1\<close>: the sector
  count is a natural number.
\<close>

definition bufferSectors :: "device \<Rightarrow> AudioCD \<Rightarrow> nat \<Rightarrow> AudioCD \<times> error option outcome" where
  "bufferSectors D cd nsectors =
     (let cd1 = (if sbuf cd = None
                 then cd\<lparr>sbuf := Some (replicate (nsectors * BytesPerSector) 0)\<rparr> else cd);
          cd2 = (if slen (sbuf cd1) < nsectors * BytesPerSector
                 then cd1\<lparr>sbuf := Some (replicate (nsectors * BytesPerSector) 0)\<rparr> else cd1)
      in case readSectors D cd2 (sbytes (sbuf cd2)) of
           (cd3, p1, Panics) \<Rightarrow> (cd3\<lparr>sbuf := Some p1\<rparr>, Panics)
         | (cd3, p1, Returns (n, err)) \<Rightarrow>
             (cd3\<lparr>sbuf := Some p1,
                   bufferedOffset := int64 (bufferedOffset cd3 + n),
                   buf := buf cd3 @ take (nat n) p1\<rparr>, Returns err))"

text \<open>
  \<open>Read\<close> takes the length of the caller's slice and returns the bytes it has copied
  into the front of it; the count \<open>n\<close> that Go returns is their number.
\<close>

function Read ::
  "device \<Rightarrow> AudioCD \<Rightarrow> nat \<Rightarrow> AudioCD \<times> (byte list \<times> error option) outcome" where
  "Read D cd k =
     (if k = 0 then (cd, Returns ([], None))
      else if length (buf cd) > 0 then
        (let n = (if k > length (buf cd) then length (buf cd) else k);
             cd1 = cd\<lparr>buf := drop n (buf cd), trueOffset := int64 (trueOffset cd + int n)\<rparr>
         in case Read D cd1 (k - n) of
              (cd2, Panics) \<Rightarrow> (cd2, Panics)
            | (cd2, Returns (rest, err)) \<Rightarrow> (cd2, Returns (take n (buf cd) @ rest, err)))
      else
        (case bufferSectors D cd (k div BytesPerSector + 1) of
           (cd1, Panics) \<Rightarrow> (cd1, Panics)
         | (cd1, Returns (Some e)) \<Rightarrow> (cd1, Returns ([], Some e))
         | (cd1, Returns None) \<Rightarrow> Read D cd1 k))"
  by pat_completeness auto

text \<open>
  \<open>bytes.Buffer.Next(n)\<close>: the next \<open>n\<close> bytes (all of them if fewer are unread) and
  what stays unread; a negative \<open>n\<close> is a slice-bounds panic, \<open>None\<close> here.
\<close>

definition Next :: "byte list \<Rightarrow> int \<Rightarrow> (byte list \<times> byte list) option" where
  "Next b n =
     (let m = (if n > int (length b) then int (length b) else n)
      in if m < 0 then None else Some (take (nat m) b, drop (nat m) b))"

text \<open>
  \<open>Seek\<close>, first part: the \<open>switch whence\<close> that resolves the target
  (\<open>io.SeekStart = 0\<close>, \<open>io.SeekCurrent = 1\<close>, \<open>io.SeekEnd = 2\<close>). The argument
  \<open>offset\<close> stands for an \<open>int64\<close> value.
\<close>

definition Seek_newoffset ::
  "device \<Rightarrow> AudioCD \<Rightarrow> int \<Rightarrow> int \<Rightarrow> AudioCD \<times> (int \<times> error option) outcome" where
  "Seek_newoffset D cd offset whence =
     (if whence = 1 then (cd, Returns (int64 (trueOffset cd + offset), None))
      else if whence = 2 then
        (case LengthSectors D cd of
           (cd1, Panics) \<Rightarrow> (cd1, Panics)
         | (cd1, Returns (l, Some e)) \<Rightarrow> (cd1, Returns (0, Some e))
         | (cd1, Returns (l, None)) \<Rightarrow>
             (cd1, Returns (int64 (int64 (l * int BytesPerSector) + offset), None)))
      else (cd, Returns (offset, None)))"

text \<open>\<open>Seek\<close>, second part: from the comparison with \<open>trueOffset\<close> to the end.\<close>

definition Seek_to :: "device \<Rightarrow> AudioCD \<Rightarrow> int \<Rightarrow> AudioCD \<times> (int \<times> error option) outcome" where
  "Seek_to D cd newoffset =
     (if newoffset = trueOffset cd then (cd, Returns (trueOffset cd, None))
      else if newoffset > trueOffset cd \<and> newoffset < bufferedOffset cd then
        (case Next (buf cd) (int64 (newoffset - trueOffset cd)) of
           None \<Rightarrow> (cd, Panics)
         | Some (skipped, rest) \<Rightarrow>
             (cd\<lparr>buf := rest, trueOffset := newoffset\<rparr>, Returns (newoffset, None)))
      else
        (let cd1 = cd\<lparr>buf := [], trueOffset := bufferedOffset cd\<rparr>;
             secoffset = int64 (newoffset - (newoffset smod int BytesPerSector))
         in case bufferSectors D cd1 1 of
              (cd2, Panics) \<Rightarrow> (cd2, Panics)
            | (cd2, Returns err) \<Rightarrow>
                (let cd3 = cd2\<lparr>trueOffset := bufferedOffset cd2\<rparr>
                 in if err \<noteq> None then (cd3, Returns (trueOffset cd3, err))
                    else
                      (case Next (buf cd3) (int64 (newoffset - secoffset)) of
                         None \<Rightarrow> (cd3, Panics)
                       | Some (skipped, rest) \<Rightarrow>
                           (cd3\<lparr>buf := rest, trueOffset := newoffset\<rparr>,
                            Returns (newoffset, None))))))"

definition Seek ::
  "device \<Rightarrow> AudioCD \<Rightarrow> int \<Rightarrow> int \<Rightarrow> AudioCD \<times> (int \<times> error option) outcome" where
  "Seek D cd offset whence =
     (if \<not> IsOpen cd then (cd, Returns (trueOffset cd, Some ErrClosed))
      else
        (case Seek_newoffset D cd offset whence of
           (cd1, Panics) \<Rightarrow> (cd1, Panics)
         | (cd1, Returns (r, Some e)) \<Rightarrow> (cd1, Returns (r, Some e))
         | (cd1, Returns (newoffset, None)) \<Rightarrow> Seek_to D cd1 newoffset))"

definition SeekToSector ::
  "device \<Rightarrow> AudioCD \<Rightarrow> int \<Rightarrow> AudioCD \<times> (int \<times> error option) outcome" where
  "SeekToSector D cd sector = Seek D cd (int64 (sector * int BytesPerSector)) 0"

definition Close :: "AudioCD \<Rightarrow> AudioCD \<times> error option" where
  "Close cd =
     (let cd1 = (if IsOpen cd
                 then (case cdio cd of None \<Rightarrow> cd | Some h \<Rightarrow> closeDrive cd h) else cd)
      in (cd1\<lparr>cdio := None, buf := []\<rparr>, None))"

definition EjectMedia :: "device \<Rightarrow> AudioCD \<Rightarrow> AudioCD \<times> error option" where
  "EjectMedia D cd =
     (let (cd1, err) = ejectMedia D cd
      in if err \<noteq> None then (cd1, err) else Close cd1)"

section \<open>Properties of the call history\<close>

text \<open>
  A recorded \<open>cdio_read_audio_sectors\<close> call is aligned when the slice it was given
  holds a positive whole number of sectors and the sector count passed is that number (as a
  C \<open>unsigned int\<close>). \<open>aligned_since cs cs'\<close>: the history
  \<open>cs'\<close> extends \<open>cs\<close>, and every call made since is aligned.
\<close>

fun aligned_call :: "dev_call \<Rightarrow> bool" where
  "aligned_call (CdioReadAudioSectors len lsn n) =
     (0 < len \<and> len mod BytesPerSector = 0 \<and> n = len div BytesPerSector mod 2 ^ 32)"
| "aligned_call c = True"

definition aligned_since :: "dev_call list \<Rightarrow> dev_call list \<Rightarrow> bool" where
  "aligned_since cs cs' \<longleftrightarrow>
     take (length cs) cs' = cs \<and> list_all aligned_call (drop (length cs) cs')"

text \<open>
  The stream after the two \<open>if\<close>s at the head of \<open>bufferSectors\<close>; see
  \<open>bufferSectors_grow\<close> below.
\<close>

definition grow_sbuf :: "AudioCD \<Rightarrow> nat \<Rightarrow> AudioCD" where
  "grow_sbuf cd n =
     (if sbuf cd = None \<or> slen (sbuf cd) < n * BytesPerSector
      then cd\<lparr>sbuf := Some (replicate (n * BytesPerSector) 0)\<rparr> else cd)"

text \<open>The relation between the two offsets and the buffer.\<close>

definition stream_inv :: "AudioCD \<Rightarrow> bool" where
  "stream_inv cd \<longleftrightarrow>
     bufferedOffset cd \<ge> trueOffset cd
     \<and> bufferedOffset cd - trueOffset cd = int (length (buf cd))"

section \<open>Example drives and streams\<close>

text \<open>
  A disc whose sector \<open>k\<close> holds 2352 copies of the byte \<open>k\<close>, in a drive that answers
  every call with success, and the zero value of the Go struct.
\<close>

definition disc_sectors :: "int \<Rightarrow> nat \<Rightarrow> byte list" where
  "disc_sectors lsn n = concat (map (\<lambda>i. replicate BytesPerSector (of_int (lsn + int i))) [0..<n])"

definition example_drive :: device where
  "example_drive =
     \<lparr>cdio_open = (\<lambda>hist dev. Some 1),
      cdio_ret = (\<lambda>hist c. 0),
      cdio_data = (\<lambda>hist c. case c of CdioReadAudioSectors len lsn n \<Rightarrow> disc_sectors lsn n
                                | _ \<Rightarrow> []),
      cdio_hwinfo = (\<lambda>hist. None),
      CDIO_INVALID_TRACK = 255,
      CDIO_INVALID_LSN = - 45301,
      CDIO_TRACK_FLAG_TRUE = 1,
      TRACK_FORMAT_AUDIO = 0\<rparr>"

text \<open>The same drive, refusing to set the speed, and refusing to eject.\<close>

definition no_speed_drive :: device where
  "no_speed_drive =
     example_drive\<lparr>cdio_ret := (\<lambda>hist c. case c of CdioSetSpeed x \<Rightarrow> - 2 | _ \<Rightarrow> 0)\<rparr>"

definition no_eject_drive :: device where
  "no_eject_drive =
     example_drive\<lparr>cdio_ret := (\<lambda>hist c. case c of CdioEjectMedia h \<Rightarrow> - 1 | _ \<Rightarrow> 0)\<rparr>"

definition zero_cd :: AudioCD where
  "zero_cd = \<lparr>Device = [], buf = [], sbuf = None, bufferedOffset = 0, trueOffset = 0,
              cdio = None, calls = []\<rparr>"

text \<open>The stream right after a successful \<open>Open\<close> on the example drive.\<close>

definition opened_cd :: AudioCD where
  "opened_cd = zero_cd\<lparr>cdio := Some 1, calls := [CdioOpen None, CdioSetSpeed 65535]\<rparr>"

section \<open>Basic facts\<close>

lemma BytesPerSector_eq: "BytesPerSector = 2352"
  by (simp add: BytesPerSector_def SampleRate_def Channels_def BytesPerSample_def
      BitsPerSample_def SectorsPerSecond_def)

lemma length_overwrite: "length (overwrite p d) = length p"
  by (simp add: overwrite_def)

lemma readAudioSectors_length:
  "readAudioSectors D cd p n = (cd1, p1, r) \<Longrightarrow> length p1 = length p"
  by (auto simp: readAudioSectors_def Let_def call_int_def length_overwrite split: if_splits)

lemma readSectors_length:
  "readSectors D cd p = (cd1, p1, r) \<Longrightarrow> length p1 = length p"
  by (auto simp: readSectors_def Let_def split: if_splits prod.splits outcome.splits option.splits
      dest: readAudioSectors_length)

lemma readSectors_count:
  "readSectors D cd p = (cd1, p1, Returns (n, None)) \<Longrightarrow> n = int (length p)"
  by (auto simp: readSectors_def Let_def split: if_splits prod.splits outcome.splits option.splits)

lemma bufferSectors_fills:
  assumes "bufferSectors D cd n = (cd1, Returns None)" and "0 < n"
  shows "buf cd1 \<noteq> []"
proof -
  define cd2 where "cd2 =
    (if slen (sbuf (if sbuf cd = None then cd\<lparr>sbuf := Some (replicate (n * BytesPerSector) 0)\<rparr> else cd))
          < n * BytesPerSector
     then (if sbuf cd = None then cd\<lparr>sbuf := Some (replicate (n * BytesPerSector) 0)\<rparr> else cd)
            \<lparr>sbuf := Some (replicate (n * BytesPerSector) 0)\<rparr>
     else (if sbuf cd = None then cd\<lparr>sbuf := Some (replicate (n * BytesPerSector) 0)\<rparr> else cd))"
  have len: "n * BytesPerSector \<le> length (sbytes (sbuf cd2))"
    by (auto simp: cd2_def slen_def sbytes_def split: option.splits)
  obtain cd3 p1 r where rs: "readSectors D cd2 (sbytes (sbuf cd2)) = (cd3, p1, r)"
    by (cases "readSectors D cd2 (sbytes (sbuf cd2))") auto
  from assms(1) rs have r: "r = Returns (int (length (sbytes (sbuf cd2))), None)"
    and b: "buf cd1 = buf cd3 @ take (length (sbytes (sbuf cd2))) p1"
    by (auto simp: bufferSectors_def Let_def cd2_def [symmetric]
        split: outcome.splits prod.splits dest: readSectors_count)
  from rs have "length p1 = length (sbytes (sbuf cd2))"
    by (rule readSectors_length)
  moreover from len assms(2) have "0 < length (sbytes (sbuf cd2))"
    by (cases n) (auto simp: BytesPerSector_eq)
  ultimately show ?thesis
    using b by auto
qed

termination Read
proof (relation "measure (\<lambda>(D, cd, k). 2 * k + (if buf cd = [] then 1 else 0))")
  show "wf (measure (\<lambda>(D, cd, k). 2 * k + (if buf cd = [] then 1 else 0)))"
    by simp
next
  fix D :: device and cd :: AudioCD and k n :: nat and cd1 :: AudioCD
  assume "k \<noteq> 0" "0 < length (buf cd)"
    and "n = (if length (buf cd) < k then length (buf cd) else k)"
    and "cd1 = cd\<lparr>buf := drop n (buf cd), trueOffset := int64 (trueOffset cd + int n)\<rparr>"
  moreover from \<open>0 < length (buf cd)\<close> have "buf cd \<noteq> []"
    by simp
  ultimately have "0 < n" "n \<le> k"
    by (simp_all split: if_splits)
  then show "((D, cd1, k - n), D, cd, k)
      \<in> measure (\<lambda>(D, cd, k). 2 * k + (if buf cd = [] then 1 else 0))"
    using \<open>buf cd \<noteq> []\<close> by auto
next
  fix D :: device and cd cd1 :: AudioCD and k :: nat
    and y :: "error option outcome" and e :: "error option"
  assume "k \<noteq> 0" "\<not> 0 < length (buf cd)"
    and "(cd1, y) = bufferSectors D cd (k div BytesPerSector + 1)"
    and "y = Returns e" "e = None"
  then have "bufferSectors D cd (k div BytesPerSector + 1) = (cd1, Returns None)"
    by simp
  then have "buf cd1 \<noteq> []"
    by (rule bufferSectors_fills) simp
  with \<open>\<not> 0 < length (buf cd)\<close>
  show "((D, cd1, k), D, cd, k)
      \<in> measure (\<lambda>(D, cd, k). 2 * k + (if buf cd = [] then 1 else 0))"
    by simp
qed

declare Read.simps [simp del]

lemma int32_65535: "int32 65535 = 65535"
  by (simp add: int32_def)

lemma disc_sectors_1: "disc_sectors lsn (Suc 0) = replicate 2352 (of_int lsn)"
  by (simp add: disc_sectors_def BytesPerSector_eq)

lemma disc_sectors_2:
  "disc_sectors lsn 2 = replicate 2352 (of_int lsn) @ replicate 2352 (of_int (lsn + 1))"
  by (simp add: disc_sectors_def BytesPerSector_eq upt_conv_Cons)

lemma disc_sectors_4:
  "disc_sectors lsn 4 = replicate 2352 (of_int lsn) @ replicate 2352 (of_int (lsn + 1))
     @ replicate 2352 (of_int (lsn + 2)) @ replicate 2352 (of_int (lsn + 3))"
  by (simp add: disc_sectors_def BytesPerSector_eq upt_conv_Cons)


lemmas eval_defs = Open_def IsOpen_def openDrive_def SetSpeed_def setSpeed_def call_int_def
  int32_def uint32_def int64_def Seek_def Seek_newoffset_def Seek_to_def bufferSectors_def
  readSectors_def readAudioSectors_def slen_def sbytes_def BytesPerSector_eq Let_def
  overwrite_def Next_def Close_def closeDrive_def EjectMedia_def ejectMedia_def
  zero_cd_def opened_cd_def disc_sectors_1 disc_sectors_2 disc_sectors_4

subsection \<open>The three cases of Read, and operations on a closed stream\<close>

lemma readSectors_closed:
  "\<not> IsOpen cd \<Longrightarrow> readSectors D cd p = (cd, p, Returns (0, Some ErrClosed))"
  by (simp add: readSectors_def)

lemma IsOpen_updates:
  "IsOpen (cd\<lparr>sbuf := sb\<rparr>) = IsOpen cd"
  "IsOpen (cd\<lparr>buf := b\<rparr>) = IsOpen cd"
  "IsOpen (cd\<lparr>trueOffset := t\<rparr>) = IsOpen cd"
  "IsOpen (cd\<lparr>bufferedOffset := bo\<rparr>) = IsOpen cd"
  "IsOpen (cd\<lparr>calls := cs\<rparr>) = IsOpen cd"
  by (simp_all add: IsOpen_def)

lemma bufferSectors_closed:
  assumes "\<not> IsOpen cd"
  shows "snd (bufferSectors D cd n) = Returns (Some ErrClosed)"
    and "calls (fst (bufferSectors D cd n)) = calls cd"
    and "cdio (fst (bufferSectors D cd n)) = cdio cd"
    and "buf (fst (bufferSectors D cd n)) = buf cd"
  using assms by (simp_all add: bufferSectors_def Let_def readSectors_closed IsOpen_updates)

lemma Read_zero: "Read D cd 0 = (cd, Returns ([], None))"
  using Read.simps [of D cd 0] by simp

lemma Read_buffered:
  assumes "0 < k" "buf cd \<noteq> []"
  shows "Read D cd k =
    (case Read D (cd\<lparr>buf := drop (min k (length (buf cd))) (buf cd),
                       trueOffset := int64 (trueOffset cd + int (min k (length (buf cd))))\<rparr>)
            (k - min k (length (buf cd))) of
       (cd2, Panics) \<Rightarrow> (cd2, Panics)
     | (cd2, Returns (rest, err)) \<Rightarrow>
         (cd2, Returns (take (min k (length (buf cd))) (buf cd) @ rest, err)))"
proof -
  have "(if length (buf cd) < k then length (buf cd) else k) = min k (length (buf cd))"
    by (simp add: min_def)
  with assms Read.simps [of D cd k] show ?thesis
    by (simp add: Let_def)
qed

lemma Read_refill:
  assumes "0 < k" "buf cd = []"
  shows "Read D cd k =
    (case bufferSectors D cd (k div BytesPerSector + 1) of
       (cd1, Panics) \<Rightarrow> (cd1, Panics)
     | (cd1, Returns (Some e)) \<Rightarrow> (cd1, Returns ([], Some e))
     | (cd1, Returns None) \<Rightarrow> Read D cd1 k)"
  using assms Read.simps [of D cd k] by simp

lemma Read_closed_calls:
  "\<not> IsOpen cd \<Longrightarrow> calls (fst (Read D cd k)) = calls cd"
proof (induction D cd k rule: Read.induct)
  case (1 D cd k)
  show ?case
  proof (cases "k = 0")
    case True
    then show ?thesis by (simp add: Read_zero)
  next
    case k: False
    show ?thesis
    proof (cases "0 < length (buf cd)")
      case True
      define n where "n = (if k > length (buf cd) then length (buf cd) else k)"
      define cd1 where
        "cd1 = cd\<lparr>buf := drop n (buf cd), trueOffset := int64 (trueOffset cd + int n)\<rparr>"
      have n: "n = min k (length (buf cd))"
        by (simp add: n_def min_def)
      have closed1: "\<not> IsOpen cd1"
        using "1.prems" by (simp add: cd1_def IsOpen_def)
      have "calls (fst (Read D cd1 (k - n))) = calls cd1"
        using "1.IH"(1) [OF k True n_def cd1_def closed1] .
      moreover have "fst (Read D cd k) = fst (Read D cd1 (k - n))"
        using k True
        by (simp add: Read_buffered cd1_def n split: prod.splits outcome.splits)
      ultimately show ?thesis by (simp add: cd1_def)
    next
      case False
      with k bufferSectors_closed [OF "1.prems", of D "k div BytesPerSector + 1"]
      show ?thesis
        by (auto simp: Read_refill split: prod.splits outcome.splits option.splits)
    qed
  qed
qed

lemma Read_closed_empty_buffer:
  assumes "\<not> IsOpen cd" "0 < k" "buf cd = []"
  shows "snd (Read D cd k) = Returns ([], Some ErrClosed)"
  using assms bufferSectors_closed(1) [OF assms(1), of D "k div BytesPerSector + 1"]
  by (auto simp: Read_refill split: prod.splits outcome.splits option.splits)

subsection \<open>The scratch buffer\<close>

lemma bufferSectors_grow:
  "bufferSectors D cd n =
     (case readSectors D (grow_sbuf cd n) (sbytes (sbuf (grow_sbuf cd n))) of
        (cd3, p1, Panics) \<Rightarrow> (cd3\<lparr>sbuf := Some p1\<rparr>, Panics)
      | (cd3, p1, Returns (m, err)) \<Rightarrow>
          (cd3\<lparr>sbuf := Some p1,
                bufferedOffset := int64 (bufferedOffset cd3 + m),
                buf := buf cd3 @ take (nat m) p1\<rparr>, Returns err))"
  by (cases "sbuf cd") (simp_all add: bufferSectors_def grow_sbuf_def Let_def slen_def)

lemma grow_sbuf_fields [simp]:
  "calls (grow_sbuf cd n) = calls cd"
  "cdio (grow_sbuf cd n) = cdio cd"
  "buf (grow_sbuf cd n) = buf cd"
  "trueOffset (grow_sbuf cd n) = trueOffset cd"
  "bufferedOffset (grow_sbuf cd n) = bufferedOffset cd"
  "IsOpen (grow_sbuf cd n) = IsOpen cd"
  by (simp_all add: grow_sbuf_def IsOpen_def)

subsection \<open>Every device read is aligned\<close>

lemma aligned_since_iff:
  "aligned_since cs cs' \<longleftrightarrow> (\<exists>new. cs' = cs @ new \<and> list_all aligned_call new)"
proof
  assume "aligned_since cs cs'"
  then have "cs' = cs @ drop (length cs) cs'" "list_all aligned_call (drop (length cs) cs')"
    by (simp_all add: aligned_since_def) (metis append_take_drop_id)
  then show "\<exists>new. cs' = cs @ new \<and> list_all aligned_call new"
    by blast
next
  assume "\<exists>new. cs' = cs @ new \<and> list_all aligned_call new"
  then show "aligned_since cs cs'"
    by (auto simp: aligned_since_def)
qed

lemma aligned_since_refl [simp]: "aligned_since cs cs"
  by (simp add: aligned_since_def)

lemma aligned_since_trans:
  "aligned_since cs cs' \<Longrightarrow> aligned_since cs' cs'' \<Longrightarrow> aligned_since cs cs''"
  by (auto simp: aligned_since_iff)

lemma aligned_since_snoc:
  "aligned_since cs cs' \<Longrightarrow> aligned_call c \<Longrightarrow> aligned_since cs (cs' @ [c])"
  by (auto simp: aligned_since_iff)

lemma readAudioSectors_aligned:
  "aligned_since (calls cd) (calls (fst (readAudioSectors D cd p n)))"
proof -
  have "0 < n" if "p \<noteq> []" "length p = n * BytesPerSector"
    using that by (cases n) auto
  then have "0 < n" if "p \<noteq> []" "length p = n * 2352"
    using that by (simp add: BytesPerSector_eq)
  then show ?thesis
    by (auto simp: readAudioSectors_def Let_def call_int_def BytesPerSector_eq
        intro!: aligned_since_snoc)
qed

lemma readSectors_aligned:
  "aligned_since (calls cd) (calls (fst (readSectors D cd p)))"
  using readAudioSectors_aligned [of cd D p "length p div BytesPerSector"]
  by (auto simp: readSectors_def Let_def split: prod.splits outcome.splits option.splits)

lemma bufferSectors_aligned:
  "aligned_since (calls cd) (calls (fst (bufferSectors D cd n)))"
  using readSectors_aligned [of "grow_sbuf cd n" D "sbytes (sbuf (grow_sbuf cd n))"]
  by (auto simp: bufferSectors_grow split: prod.splits outcome.splits)

lemma Read_aligned:
  "aligned_since (calls cd) (calls (fst (Read D cd k)))"
proof (induction D cd k rule: Read.induct)
  case (1 D cd k)
  show ?case
  proof (cases "k = 0")
    case True
    then show ?thesis by (simp add: Read_zero)
  next
    case k: False
    show ?thesis
    proof (cases "0 < length (buf cd)")
      case True
      define n where "n = (if k > length (buf cd) then length (buf cd) else k)"
      define cd1 where
        "cd1 = cd\<lparr>buf := drop n (buf cd), trueOffset := int64 (trueOffset cd + int n)\<rparr>"
      have n: "n = min k (length (buf cd))"
        by (simp add: n_def min_def)
      have "aligned_since (calls cd1) (calls (fst (Read D cd1 (k - n))))"
        using "1.IH"(1) [OF k True n_def cd1_def] .
      moreover have "fst (Read D cd k) = fst (Read D cd1 (k - n))"
        using k True
        by (simp add: Read_buffered cd1_def n split: prod.splits outcome.splits)
      ultimately show ?thesis by (simp add: cd1_def)
    next
      case False
      obtain cd1 r where bs: "bufferSectors D cd (k div BytesPerSector + 1) = (cd1, r)"
        by (cases "bufferSectors D cd (k div BytesPerSector + 1)") auto
      with bufferSectors_aligned [of cd D "k div BytesPerSector + 1"]
      have step: "aligned_since (calls cd) (calls cd1)"
        by simp
      show ?thesis
      proof (cases "r = Returns None")
        case True
        have "aligned_since (calls cd1) (calls (fst (Read D cd1 k)))"
          using "1.IH"(2) [OF k False bs [symmetric] True refl] .
        with step have "aligned_since (calls cd) (calls (fst (Read D cd1 k)))"
          by (rule aligned_since_trans)
        with k False bs True show ?thesis
          by (simp add: Read_refill)
      next
        case False
        with k \<open>\<not> 0 < length (buf cd)\<close> bs step show ?thesis
          by (auto simp: Read_refill split: outcome.splits option.splits)
      qed
    qed
  qed
qed


lemma toc_loop_aligned:
  "aligned_since cs (calls cd) \<Longrightarrow> aligned_since cs (calls (fst (toc_loop D t1 idx cd acc)))"
proof (induction idx arbitrary: cd acc)
  case Nil
  then show ?case by simp
next
  case (Cons i rest)
  define tt where "tt = uint8 (t1 + int i)"
  define cd5 where "cd5 = cd\<lparr>calls := calls cd @
     [CdioGetTrackChannels tt, CdioGetTrackCopyPermit tt, CdioGetTrackPreemphasis tt,
      CdioGetTrackFormat tt, CdioGetTrackLsn tt]\<rparr>"
  define cd6 where "cd6 = cd5\<lparr>calls := calls cd5 @ [CdioGetTrackSecCount tt]\<rparr>"
  have a5: "aligned_since cs (calls cd5)"
    using Cons.prems by (auto simp: cd5_def aligned_since_iff)
  then have a6: "aligned_since cs (calls cd6)"
    by (auto simp: cd6_def aligned_since_iff)
  have "fst (toc_loop D t1 (i # rest) cd acc) = cd5
      \<or> fst (toc_loop D t1 (i # rest) cd acc) = cd6
      \<or> (\<exists>acc'. fst (toc_loop D t1 (i # rest) cd acc) = fst (toc_loop D t1 rest cd6 acc'))"
    by (auto simp add: Let_def call_int_def tt_def [symmetric] cd5_def cd6_def)
  with a5 a6 Cons.IH [OF a6] show ?case
    by auto
qed

lemma toc_aligned:
  "aligned_since (calls cd) (calls (fst (toc D cd n)))"
proof -
  have "aligned_since (calls cd) (calls (cd\<lparr>calls := calls cd @ [CdioGetFirstTrackNum]\<rparr>))"
    by (auto simp: aligned_since_iff)
  from toc_loop_aligned [OF this] show ?thesis
    by (auto simp: toc_def Let_def call_int_def aligned_since_iff)
qed

lemma TOC_aligned:
  "aligned_since (calls cd) (calls (fst (TOC D cd)))"
proof (cases "IsOpen cd")
  case True
  have "aligned_since (calls cd) (calls (cd\<lparr>calls := calls cd @ [CdioGetNumTracks]\<rparr>))"
    by (auto simp: aligned_since_iff)
  moreover have "aligned_since (calls (cd\<lparr>calls := calls cd @ [CdioGetNumTracks]\<rparr>))
      (calls (fst (toc D (cd\<lparr>calls := calls cd @ [CdioGetNumTracks]\<rparr>) n)))" for n
    by (rule toc_aligned)
  ultimately have "aligned_since (calls cd)
      (calls (fst (toc D (cd\<lparr>calls := calls cd @ [CdioGetNumTracks]\<rparr>) n)))" for n
    by (rule aligned_since_trans)
  with True show ?thesis
    by (simp add: TOC_def TrackCount_def trackCount_def call_int_def Let_def)
next
  case False
  then show ?thesis by (simp add: TOC_def)
qed

lemma LengthSectors_aligned:
  "aligned_since (calls cd) (calls (fst (LengthSectors D cd)))"
  using TOC_aligned [of cd D]
  by (auto simp: LengthSectors_def Let_def split: prod.splits)

lemma Seek_newoffset_aligned:
  "aligned_since (calls cd) (calls (fst (Seek_newoffset D cd offset whence)))"
  using LengthSectors_aligned [of cd D]
  by (auto simp: Seek_newoffset_def split: prod.splits outcome.splits option.splits)

lemma Seek_to_aligned:
  "aligned_since (calls cd) (calls (fst (Seek_to D cd newoffset)))"
  using bufferSectors_aligned [of "cd\<lparr>buf := [], trueOffset := bufferedOffset cd\<rparr>" D 1]
  by (auto simp: Seek_to_def Let_def split: prod.splits outcome.splits option.splits)

lemma Seek_aligned:
  "aligned_since (calls cd) (calls (fst (Seek D cd offset whence)))"
proof -
  obtain cd1 r where sn: "Seek_newoffset D cd offset whence = (cd1, r)"
    by (cases "Seek_newoffset D cd offset whence") auto
  with Seek_newoffset_aligned [of cd D offset whence]
  have "aligned_since (calls cd) (calls cd1)"
    by simp
  moreover from this Seek_to_aligned [of cd1 D]
  have "aligned_since (calls cd) (calls (fst (Seek_to D cd1 n)))" for n
    by (rule aligned_since_trans)
  ultimately show ?thesis
    using sn by (auto simp: Seek_def split: outcome.splits option.splits)
qed

lemma readSectors_misaligned:
  assumes "IsOpen cd" "length p mod BytesPerSector \<noteq> 0"
  shows "readSectors D cd p =
           (cd, p, Returns (0, Some (Errorf ''audiocd: must read complete sectors'')))"
  using assms by (auto simp: readSectors_def)



subsection \<open>What a device read leaves in the stream\<close>

lemma grow_sbuf_update:
  "(grow_sbuf cd n)\<lparr>calls := cs, sbuf := sb, bufferedOffset := bo, buf := b\<rparr>
     = cd\<lparr>sbuf := sb, bufferedOffset := bo, buf := b, calls := cs\<rparr>"
  by (simp add: grow_sbuf_def)

lemma readSectors_success:
  assumes "IsOpen cd" "p \<noteq> []" "length p mod BytesPerSector = 0"
    and "c = CdioReadAudioSectors (length p) (int32 (uint32 (trueOffset cd sdiv int BytesPerSector)))
               (length p div BytesPerSector mod 2 ^ 32)"
  shows "readSectors D cd p =
     (cd\<lparr>calls := calls cd @ [c]\<rparr>, overwrite p (cdio_data D (calls cd) c),
      Returns (if cdio_ret D (calls cd) c \<noteq> 0
               then (0, Some (AudioCDError (cdio_ret D (calls cd) c)))
               else (int (length p), None)))"
  using assms
  by (auto simp: readSectors_def readAudioSectors_def Let_def call_int_def)

lemma bufferSectors_success:
  assumes op: "IsOpen cd"
    and p0: "p0 = sbytes (sbuf (grow_sbuf cd n))"
    and ne: "p0 \<noteq> []" and al: "length p0 mod BytesPerSector = 0"
    and c: "c = CdioReadAudioSectors (length p0)
                  (int32 (uint32 (trueOffset cd sdiv int BytesPerSector)))
                  (length p0 div BytesPerSector mod 2 ^ 32)"
    and ok: "cdio_ret D (calls cd) c = 0"
  shows "bufferSectors D cd n =
     (cd\<lparr>sbuf := Some (overwrite p0 (cdio_data D (calls cd) c)),
         bufferedOffset := int64 (bufferedOffset cd + int (length p0)),
         buf := buf cd @ overwrite p0 (cdio_data D (calls cd) c),
         calls := calls cd @ [c]\<rparr>, Returns None)"
proof -
  have "readSectors D (grow_sbuf cd n) p0 =
     ((grow_sbuf cd n)\<lparr>calls := calls cd @ [c]\<rparr>, overwrite p0 (cdio_data D (calls cd) c),
      Returns (int (length p0), None))"
    using readSectors_success [of "grow_sbuf cd n" p0 c D] op ne al c ok by simp
  then show ?thesis
    by (simp add: bufferSectors_grow p0 [symmetric] length_overwrite grow_sbuf_update)
qed

lemma bufferSectors_failure:
  assumes op: "IsOpen cd"
    and p0: "p0 = sbytes (sbuf (grow_sbuf cd n))"
    and ne: "p0 \<noteq> []" and al: "length p0 mod BytesPerSector = 0"
    and c: "c = CdioReadAudioSectors (length p0)
                  (int32 (uint32 (trueOffset cd sdiv int BytesPerSector)))
                  (length p0 div BytesPerSector mod 2 ^ 32)"
    and ok: "cdio_ret D (calls cd) c \<noteq> 0"
  shows "bufferSectors D cd n =
     (cd\<lparr>sbuf := Some (overwrite p0 (cdio_data D (calls cd) c)),
         bufferedOffset := int64 (bufferedOffset cd),
         buf := buf cd,
         calls := calls cd @ [c]\<rparr>, Returns (Some (AudioCDError (cdio_ret D (calls cd) c))))"
proof -
  have "readSectors D (grow_sbuf cd n) p0 =
     ((grow_sbuf cd n)\<lparr>calls := calls cd @ [c]\<rparr>, overwrite p0 (cdio_data D (calls cd) c),
      Returns (0, Some (AudioCDError (cdio_ret D (calls cd) c))))"
    using readSectors_success [of "grow_sbuf cd n" p0 c D] op ne al c ok by simp
  then show ?thesis
    by (simp add: bufferSectors_grow p0 [symmetric] length_overwrite grow_sbuf_update)
qed

lemma grow_sbuf_exact:
  assumes "slen (sbuf cd) \<le> n * BytesPerSector"
  shows "length (sbytes (sbuf (grow_sbuf cd n))) = n * BytesPerSector"
  using assms by (auto simp: grow_sbuf_def slen_def sbytes_def split: option.splits)

lemma grow_sbuf_length:
  "slen (sbuf cd) \<le> length (sbytes (sbuf (grow_sbuf cd n)))"
  by (auto simp: grow_sbuf_def slen_def sbytes_def split: option.splits)

lemma bufferSectors_scratch_never_shrinks:
  "slen (sbuf cd) \<le> slen (sbuf (fst (bufferSectors D cd n)))"
proof -
  obtain cd3 p1 r where rs:
    "readSectors D (grow_sbuf cd n) (sbytes (sbuf (grow_sbuf cd n))) = (cd3, p1, r)"
    by (cases "readSectors D (grow_sbuf cd n) (sbytes (sbuf (grow_sbuf cd n)))") auto
  then have "length p1 = length (sbytes (sbuf (grow_sbuf cd n)))"
    by (rule readSectors_length)
  with grow_sbuf_length [of cd n] have "slen (sbuf cd) \<le> length p1"
    by simp
  with rs show ?thesis
    by (auto simp: bufferSectors_grow slen_def split: outcome.splits)
qed

lemma int64_id: "- (2 ^ 63) \<le> x \<Longrightarrow> x < 2 ^ 63 \<Longrightarrow> int64 x = x"
  by (simp add: int64_def)

lemma smod_nonneg: "0 \<le> (x :: int) \<Longrightarrow> 0 < y \<Longrightarrow> x smod y = x mod y"
  by (simp add: signed_modulo_int_def sgn_if)

text \<open>
  The slow path of \<open>Seek\<close> in general, for a target that is a non-negative \<open>int64\<close>
  and a successful device read: the sector read is the one of the old \<open>bufferedOffset\<close>,
  whatever the target.
\<close>

lemma Seek_to_slow_path:
  assumes op: "IsOpen cd" and ne: "newoffset \<noteq> trueOffset cd"
    and slow: "\<not> (trueOffset cd < newoffset \<and> newoffset < bufferedOffset cd)"
    and range: "0 \<le> newoffset" "newoffset < 2 ^ 63"
    and p0: "p0 = sbytes (sbuf (grow_sbuf cd 1))"
    and al: "length p0 mod BytesPerSector = 0"
    and c: "c = CdioReadAudioSectors (length p0)
                  (int32 (uint32 (bufferedOffset cd sdiv int BytesPerSector)))
                  (length p0 div BytesPerSector mod 2 ^ 32)"
    and ok: "cdio_ret D (calls cd) c = 0"
    and filled: "filled = overwrite p0 (cdio_data D (calls cd) c)"
  shows "Seek_to D cd newoffset =
     (cd\<lparr>buf := drop (nat (newoffset mod int BytesPerSector)) filled,
         sbuf := Some filled,
         bufferedOffset := int64 (bufferedOffset cd + int (length p0)),
         trueOffset := newoffset,
         calls := calls cd @ [c]\<rparr>, Returns (newoffset, None))"
proof -
  define cd1 where "cd1 = cd\<lparr>buf := [], trueOffset := bufferedOffset cd\<rparr>"
  have g: "sbytes (sbuf (grow_sbuf cd1 1)) = p0"
    by (simp add: p0 cd1_def grow_sbuf_def)
  have len: "BytesPerSector \<le> length p0"
    using grow_sbuf_exact [of cd 1] grow_sbuf_length [of cd 1]
    by (cases "slen (sbuf cd) \<le> 1 * BytesPerSector") (simp_all add: p0)
  then have ne0: "p0 \<noteq> []"
    by (auto simp: BytesPerSector_eq)
  have bs: "bufferSectors D cd1 1 =
     (cd1\<lparr>sbuf := Some filled,
          bufferedOffset := int64 (bufferedOffset cd + int (length p0)),
          buf := filled,
          calls := calls cd @ [c]\<rparr>, Returns None)"
    using bufferSectors_success [of cd1 p0 1 c D] op g ne0 al c ok
    by (simp add: cd1_def IsOpen_def filled)
  have m: "newoffset mod int BytesPerSector < int (length filled)"
    using len by (simp add: filled length_overwrite BytesPerSector_eq)
  have sec: "int64 (newoffset - int64 (newoffset - newoffset smod int BytesPerSector))
      = newoffset mod int BytesPerSector"
  proof -
    have s: "newoffset smod int BytesPerSector = newoffset mod int BytesPerSector"
      using range by (simp add: smod_nonneg BytesPerSector_eq)
    have b: "0 \<le> newoffset mod int BytesPerSector"
      "newoffset mod int BytesPerSector \<le> newoffset"
      "newoffset mod int BytesPerSector < 2352"
      using range by (simp_all add: BytesPerSector_eq zmod_le_nonneg_dividend)
    then have "int64 (newoffset - newoffset mod int BytesPerSector)
        = newoffset - newoffset mod int BytesPerSector"
      using range by (intro int64_id) auto
    moreover have "int64 (newoffset mod int BytesPerSector) = newoffset mod int BytesPerSector"
      using b by (intro int64_id) auto
    ultimately show ?thesis
      by (simp add: s)
  qed
  have nx: "Next filled (newoffset mod int BytesPerSector)
      = Some (take (nat (newoffset mod int BytesPerSector)) filled,
              drop (nat (newoffset mod int BytesPerSector)) filled)"
    using m by (simp add: Next_def BytesPerSector_eq Let_def)
  have bs': "bufferSectors D (cd\<lparr>buf := [], trueOffset := bufferedOffset cd\<rparr>) (Suc 0) =
     (cd\<lparr>buf := filled, trueOffset := bufferedOffset cd, sbuf := Some filled,
         bufferedOffset := int64 (bufferedOffset cd + int (length p0)),
         calls := calls cd @ [c]\<rparr>, Returns None)"
    using bs by (simp add: cd1_def)
  from slow have nf: "(trueOffset cd < newoffset \<and> newoffset < bufferedOffset cd) = False"
    by simp
  show ?thesis
    using ne by (simp add: Seek_to_def Let_def bs' sec nx nf)
qed

lemmas run_defs = Read_refill Read_buffered Read_zero eval_defs example_drive_def

lemma Open_example: "Open example_drive zero_cd = (opened_cd, None)"
  by (simp add: eval_defs example_drive_def)

section \<open>Seeking to the current position\<close>

text \<open>
  Claim C9. On an open stream, \<open>Seek(trueOffset, io.SeekStart)\<close> returns the same offset
  with no error and leaves the whole stream state as it was: the buffer, both offsets,
  the scratch buffer, and the history of libcdio calls (no device call is made). The
  same holds for \<open>Seek(0, io.SeekCurrent)\<close> when \<open>trueOffset\<close> is an \<open>int64\<close> value.
\<close>

theorem Seek_to_cursor_noop:
  assumes "IsOpen cd"
  shows "Seek D cd (trueOffset cd) 0 = (cd, Returns (trueOffset cd, None))
         \<and> (int64 (trueOffset cd) = trueOffset cd
              \<longrightarrow> Seek D cd 0 1 = (cd, Returns (trueOffset cd, None)))"
  using assms by (simp add: Seek_def Seek_newoffset_def Seek_to_def)

theorem Seek_to_cursor_noop_witness:
  "IsOpen (opened_cd\<lparr>trueOffset := 5, bufferedOffset := 2352, buf := replicate 2347 0\<rparr>)
   \<and> Seek example_drive
         (opened_cd\<lparr>trueOffset := 5, bufferedOffset := 2352, buf := replicate 2347 0\<rparr>) 5 0
       = (opened_cd\<lparr>trueOffset := 5, bufferedOffset := 2352, buf := replicate 2347 0\<rparr>,
          Returns (5, None))
   \<and> Seek example_drive
         (opened_cd\<lparr>trueOffset := 5, bufferedOffset := 2352, buf := replicate 2347 0\<rparr>) 0 1
       = (opened_cd\<lparr>trueOffset := 5, bufferedOffset := 2352, buf := replicate 2347 0\<rparr>,
          Returns (5, None))"
proof -
  have op: "IsOpen (opened_cd\<lparr>trueOffset := 5, bufferedOffset := 2352, buf := replicate 2347 0\<rparr>)"
    by (simp add: IsOpen_def opened_cd_def zero_cd_def)
  from Seek_to_cursor_noop [OF op, of example_drive] op show ?thesis
    by (simp add: int64_def)
qed

section \<open>A failed speed setting during Open\<close>

text \<open>
  Claim C10. When \<open>Open\<close> on a closed stream gets a session from \<open>cdio_open\<close> and the
  speed setting that follows fails with code \<open>rc\<close>, \<open>Open\<close> returns that error with the
  session still held: \<open>IsOpen\<close> is true afterwards, the buffer and both offsets are what
  they were before the call, the session has not been destroyed, and a \<open>Close\<close> is what
  destroys it.
\<close>

theorem Open_speed_failure_keeps_session:
  assumes closed: "\<not> IsOpen cd"
    and dev: "arg = (if Device cd = [] then None else Some (Device cd))"
    and opened: "cdio_open D (calls cd) arg = Some h"
    and speed: "cdio_ret D (calls cd @ [CdioOpen arg]) (CdioSetSpeed 65535) = rc"
    and failed: "rc \<noteq> 0"
  shows "Open D cd =
           (cd\<lparr>cdio := Some h, calls := calls cd @ [CdioOpen arg, CdioSetSpeed 65535]\<rparr>,
            Some (AudioCDError rc))
         \<and> IsOpen (fst (Open D cd))
         \<and> buf (fst (Open D cd)) = buf cd
         \<and> bufferedOffset (fst (Open D cd)) = bufferedOffset cd
         \<and> trueOffset (fst (Open D cd)) = trueOffset cd
         \<and> Close (fst (Open D cd)) =
             (cd\<lparr>cdio := None, buf := [],
                  calls := calls cd @ [CdioOpen arg, CdioSetSpeed 65535, CdioDestroy h]\<rparr>, None)"
proof -
  have od: "openDrive D cd = (cd\<lparr>calls := calls cd @ [CdioOpen arg], cdio := Some h\<rparr>, None)"
    using dev opened by (simp add: openDrive_def Let_def)
  have ss: "SetSpeed D (cd\<lparr>calls := calls cd @ [CdioOpen arg], cdio := Some h\<rparr>) (- 1)
      = (cd\<lparr>cdio := Some h, calls := calls cd @ [CdioOpen arg, CdioSetSpeed 65535]\<rparr>,
         Some (AudioCDError rc))"
    using speed failed
    by (simp add: SetSpeed_def IsOpen_def setSpeed_def call_int_def int32_65535)
  have op: "Open D cd =
      (cd\<lparr>cdio := Some h, calls := calls cd @ [CdioOpen arg, CdioSetSpeed 65535]\<rparr>,
       Some (AudioCDError rc))"
    using closed by (simp add: Open_def od ss)
  show ?thesis
    unfolding op by (simp add: IsOpen_def Close_def closeDrive_def)
qed

theorem Open_speed_failure_keeps_session_witness:
  "Open no_speed_drive (zero_cd\<lparr>bufferedOffset := 2352, trueOffset := 5\<rparr>) =
     (zero_cd\<lparr>bufferedOffset := 2352, trueOffset := 5, cdio := Some 1,
              calls := [CdioOpen None, CdioSetSpeed 65535]\<rparr>, Some (AudioCDError (- 2)))
   \<and> IsOpen (fst (Open no_speed_drive (zero_cd\<lparr>bufferedOffset := 2352, trueOffset := 5\<rparr>)))
   \<and> bufferedOffset (fst (Open no_speed_drive (zero_cd\<lparr>bufferedOffset := 2352, trueOffset := 5\<rparr>)))
       = 2352
   \<and> trueOffset (fst (Open no_speed_drive (zero_cd\<lparr>bufferedOffset := 2352, trueOffset := 5\<rparr>)))
       = 5"
  using Open_speed_failure_keeps_session
    [of "zero_cd\<lparr>bufferedOffset := 2352, trueOffset := 5\<rparr>" None no_speed_drive 1 "- 2"]
  by (simp add: IsOpen_def zero_cd_def no_speed_drive_def example_drive_def)

section \<open>Close\<close>

text \<open>
  Claim C6, as stated, fails: \<open>Close\<close> does not reset the offsets. After \<open>Open\<close> and
  \<open>Seek(5, io.SeekStart)\<close> on the example drive, \<open>Close\<close> leaves \<open>trueOffset = 5\<close>
  and \<open>bufferedOffset = 2352\<close>.
\<close>

theorem Close_keeps_offsets_counterexample:
  "trueOffset (fst (Close (fst (Seek example_drive (fst (Open example_drive zero_cd)) 5 0)))) = 5
   \<and> bufferedOffset (fst (Close (fst (Seek example_drive (fst (Open example_drive zero_cd)) 5 0))))
       = 2352"
  by (simp add: eval_defs example_drive_def)

text \<open>
  Claim C6, amended. For every stream state, \<open>Close\<close> destroys the device session if one
  is held (and makes no device call otherwise), clears the session handle, discards all
  buffered data and returns success; it leaves \<open>trueOffset\<close> and \<open>bufferedOffset\<close> as
  they are. A second \<open>Close\<close> changes nothing, makes no device call and returns success.
\<close>

theorem Close_releases_session_keeps_offsets:
  "Close cd =
     (cd\<lparr>cdio := None, buf := [],
         calls := calls cd @ (case cdio cd of None \<Rightarrow> [] | Some h \<Rightarrow> [CdioDestroy h])\<rparr>, None)
   \<and> trueOffset (fst (Close cd)) = trueOffset cd
   \<and> bufferedOffset (fst (Close cd)) = bufferedOffset cd
   \<and> Close (fst (Close cd)) = (fst (Close cd), None)"
  by (simp add: Close_def IsOpen_def closeDrive_def split: option.splits)

section \<open>EjectMedia\<close>

text \<open>
  Claim C5, as stated, fails: when the eject fails, \<open>EjectMedia\<close> returns the error
  without performing \<open>Close\<close>. On a drive that refuses to eject, after \<open>Open\<close> and
  \<open>Seek(5, io.SeekStart)\<close>, \<open>EjectMedia\<close> returns the driver error, \<open>IsOpen\<close> is still
  true and the 2347 buffered bytes are still there.
\<close>

theorem EjectMedia_failure_counterexample:
  "snd (EjectMedia no_eject_drive
          (fst (Seek no_eject_drive (fst (Open no_eject_drive zero_cd)) 5 0)))
     = Some (AudioCDError (- 1))
   \<and> IsOpen (fst (EjectMedia no_eject_drive
          (fst (Seek no_eject_drive (fst (Open no_eject_drive zero_cd)) 5 0))))
   \<and> buf (fst (EjectMedia no_eject_drive
          (fst (Seek no_eject_drive (fst (Open no_eject_drive zero_cd)) 5 0))))
     = replicate 2347 0"
  by (simp add: eval_defs no_eject_drive_def example_drive_def)

text \<open>
  Claim C5, amended. \<open>EjectMedia\<close> signals the device to eject. When the eject succeeds
  (return code 0) the session handle is dropped and \<open>Close\<close> is performed: \<open>IsOpen\<close> is
  false, the buffer is discarded and success is returned. When the eject fails, its error
  is returned and \<open>Close\<close> is not performed: apart from the recorded device call the
  stream is as it was (still open if it was, buffer kept).
\<close>

theorem EjectMedia_closes_on_success_only:
  assumes "cdio_ret D (calls cd) (CdioEjectMedia (cdio cd)) = rc"
  shows "EjectMedia D cd =
           (if rc \<noteq> 0
            then (cd\<lparr>calls := calls cd @ [CdioEjectMedia (cdio cd)]\<rparr>, Some (AudioCDError rc))
            else (cd\<lparr>cdio := None, buf := [],
                     calls := calls cd @ [CdioEjectMedia (cdio cd)]\<rparr>, None))"
  using assms
  by (simp add: EjectMedia_def ejectMedia_def call_int_def Close_def IsOpen_def)

theorem EjectMedia_closes_on_success_only_witness:
  "EjectMedia example_drive (opened_cd\<lparr>buf := [1, 2, 3]\<rparr>) =
     (opened_cd\<lparr>cdio := None, buf := [],
                calls := [CdioOpen None, CdioSetSpeed 65535, CdioEjectMedia (Some 1)]\<rparr>, None)
   \<and> EjectMedia no_eject_drive (opened_cd\<lparr>buf := [1, 2, 3]\<rparr>) =
     (opened_cd\<lparr>buf := [1, 2, 3],
                calls := [CdioOpen None, CdioSetSpeed 65535, CdioEjectMedia (Some 1)]\<rparr>,
      Some (AudioCDError (- 1)))"
  using EjectMedia_closes_on_success_only [of example_drive "opened_cd\<lparr>buf := [1, 2, 3]\<rparr>" 0]
    EjectMedia_closes_on_success_only [of no_eject_drive "opened_cd\<lparr>buf := [1, 2, 3]\<rparr>" "- 1"]
  by (simp add: opened_cd_def zero_cd_def example_drive_def no_eject_drive_def)

section \<open>Operations on a stream that is not open\<close>

text \<open>
  Claim C7, as stated, fails for \<open>Read\<close> with an empty slice: on a stream that was never
  opened it returns 0 bytes and no error.
\<close>

theorem Read_closed_empty_slice_counterexample:
  "\<not> IsOpen zero_cd \<and> Read example_drive zero_cd 0 = (zero_cd, Returns ([], None))"
  by (simp add: IsOpen_def zero_cd_def Read_zero)

text \<open>
  Claim C7, amended. On a stream that is not open, \<open>Seek\<close>, \<open>TOC\<close>, \<open>LengthSectors\<close> and
  \<open>SetSpeed\<close> return the not-open error and leave the state as it is; \<open>Model\<close> returns
  the empty string and \<open>TrackCount\<close> returns -1; \<open>Read\<close> of an empty slice returns 0
  bytes and no error; \<open>Read\<close> of a non-empty slice, the buffer being empty, returns 0
  bytes and the not-open error. None of them makes a device call.
\<close>

theorem not_open_operations:
  assumes "\<not> IsOpen cd"
  shows "Seek D cd offset whence = (cd, Returns (trueOffset cd, Some ErrClosed))
       \<and> TOC D cd = (cd, [], Some ErrClosed)
       \<and> LengthSectors D cd = (cd, Returns (- 1, Some ErrClosed))
       \<and> SetSpeed D cd x = (cd, Some ErrClosed)
       \<and> Model D cd = (cd, [])
       \<and> TrackCount D cd = (cd, - 1)
       \<and> Read D cd 0 = (cd, Returns ([], None))
       \<and> (0 < k \<and> buf cd = [] \<longrightarrow> snd (Read D cd k) = Returns ([], Some ErrClosed))
       \<and> calls (fst (Read D cd k)) = calls cd"
  using assms Read_closed_calls [OF assms, of D k] Read_closed_empty_buffer [OF assms, of k D]
  by (simp add: Seek_def TOC_def LengthSectors_def SetSpeed_def Model_def TrackCount_def
      Read_zero)

theorem not_open_operations_witness:
  "Seek example_drive zero_cd 7056 0 = (zero_cd, Returns (0, Some ErrClosed))
   \<and> TOC example_drive zero_cd = (zero_cd, [], Some ErrClosed)
   \<and> LengthSectors example_drive zero_cd = (zero_cd, Returns (- 1, Some ErrClosed))
   \<and> SetSpeed example_drive zero_cd 4 = (zero_cd, Some ErrClosed)
   \<and> Model example_drive zero_cd = (zero_cd, [])
   \<and> TrackCount example_drive zero_cd = (zero_cd, - 1)
   \<and> snd (Read example_drive zero_cd 2352) = Returns ([], Some ErrClosed)
   \<and> calls (fst (Read example_drive zero_cd 2352)) = []"
proof -
  have closed: "\<not> IsOpen zero_cd"
    by (simp add: IsOpen_def zero_cd_def)
  have "trueOffset zero_cd = 0" "buf zero_cd = []" "calls zero_cd = []"
    by (simp_all add: zero_cd_def)
  with not_open_operations [OF closed, of example_drive 7056 0 4 2352] show ?thesis
    by simp
qed

section \<open>Sector alignment of device reads\<close>

text \<open>
  Claim C8. Whatever the stream state and the drive, every \<open>cdio_read_audio_sectors\<close>
  call made in the course of a \<open>Read\<close>, a \<open>Seek\<close> or a \<open>bufferSectors\<close> is given a
  slice whose length is a positive multiple of \<open>BytesPerSector\<close>; and on an open stream
  \<open>readSectors\<close> with a slice that is not a whole number of sectors returns the error
  "must read complete sectors" with the state, and so the call history, unchanged.
\<close>

theorem device_reads_whole_sectors:
  "aligned_since (calls cd) (calls (fst (Read D cd k)))
   \<and> aligned_since (calls cd) (calls (fst (Seek D cd offset whence)))
   \<and> aligned_since (calls cd) (calls (fst (bufferSectors D cd n)))
   \<and> (IsOpen cd \<and> length p mod BytesPerSector \<noteq> 0 \<longrightarrow>
        readSectors D cd p =
          (cd, p, Returns (0, Some (Errorf ''audiocd: must read complete sectors''))))"
  using Read_aligned [of cd D k] Seek_aligned [of cd D offset whence]
    bufferSectors_aligned [of cd D n] readSectors_misaligned [of cd p D]
  by simp

theorem device_reads_whole_sectors_witness:
  "aligned_since [CdioOpen None, CdioSetSpeed 65535]
     [CdioOpen None, CdioSetSpeed 65535, CdioReadAudioSectors 9408 0 4]
   \<and> aligned_since [CdioOpen None, CdioSetSpeed 65535]
     [CdioOpen None, CdioSetSpeed 65535, CdioReadAudioSectors 2352 0 1]
   \<and> IsOpen opened_cd \<and> length (replicate 100 (0 :: byte)) mod BytesPerSector \<noteq> 0
   \<and> readSectors example_drive opened_cd (replicate 100 0) =
        (opened_cd, replicate 100 0,
         Returns (0, Some (Errorf ''audiocd: must read complete sectors'')))"
proof -
  have r: "calls (fst (Read example_drive opened_cd 8232))
      = [CdioOpen None, CdioSetSpeed 65535, CdioReadAudioSectors 9408 0 4]"
    by (simp add: Read_refill Read_buffered Read_zero eval_defs example_drive_def)
  have s: "calls (fst (Seek example_drive opened_cd 7056 0))
      = [CdioOpen None, CdioSetSpeed 65535, CdioReadAudioSectors 2352 0 1]"
    by (simp add: eval_defs example_drive_def)
  have c: "calls opened_cd = [CdioOpen None, CdioSetSpeed 65535]"
    by (simp add: opened_cd_def zero_cd_def)
  have o: "IsOpen opened_cd"
    by (simp add: IsOpen_def opened_cd_def zero_cd_def)
  have l: "length (replicate 100 (0 :: byte)) mod BytesPerSector \<noteq> 0"
    by (simp add: BytesPerSector_eq)
  from device_reads_whole_sectors
    [of opened_cd example_drive 8232 7056 0 1 "replicate 100 0"] o l
  show ?thesis
    unfolding r s c by simp
qed

section \<open>Read on an empty buffer\<close>

text \<open>
  Claim C3, as stated, fails in both of its readings. \<open>Read\<close> of an empty slice on an
  open stream with an empty buffer makes no device read, where the formula
  \<open>len/BytesPerSector + 1\<close> gives one sector; and \<open>Read\<close> of exactly one sector
  (2352 bytes) reads two sectors, where one is the minimum that covers the request.
\<close>

theorem Read_sector_count_counterexample:
  "IsOpen opened_cd \<and> buf opened_cd = []
   \<and> Read example_drive opened_cd 0 = (opened_cd, Returns ([], None))
   \<and> calls (fst (Read example_drive opened_cd 2352)) =
       calls opened_cd @ [CdioReadAudioSectors 4704 0 2]"
  by (simp add: run_defs)

text \<open>
  Claim C3, amended. For every \<open>Read(p)\<close> with \<open>len(p) > 0\<close> on an open stream whose
  buffer is empty and whose scratch buffer is nil or not longer than
  \<open>len(p)/BytesPerSector + 1\<close> sectors, \<open>Read\<close> makes exactly one device read, of
  \<open>len(p)/BytesPerSector + 1\<close> whole sectors starting at sector
  \<open>trueOffset/BytesPerSector\<close>. When that read succeeds, \<open>Read\<close> returns precisely
  \<open>len(p)\<close> bytes, the first \<open>len(p)\<close> bytes of what the drive stored, advances
  \<open>trueOffset\<close> by \<open>len(p)\<close>, and leaves the rest (at least one byte) buffered for the
  next call. \<open>Read\<close> of an empty slice returns 0 bytes and makes no device read.
\<close>

theorem Read_empty_buffer_refill:
  assumes op: "IsOpen cd" and empty: "buf cd = []" and k: "0 < k"
    and scratch: "slen (sbuf cd) \<le> (k div BytesPerSector + 1) * BytesPerSector"
    and m: "m = (k div BytesPerSector + 1) * BytesPerSector"
    and c: "c = CdioReadAudioSectors m (int32 (uint32 (trueOffset cd sdiv int BytesPerSector)))
                  ((k div BytesPerSector + 1) mod 2 ^ 32)"
    and ok: "cdio_ret D (calls cd) c = 0"
    and filled: "filled = overwrite (sbytes (sbuf (grow_sbuf cd (k div BytesPerSector + 1))))
                            (cdio_data D (calls cd) c)"
  shows "Read D cd k =
           (cd\<lparr>sbuf := Some filled,
               bufferedOffset := int64 (bufferedOffset cd + int m),
               buf := drop k filled,
               trueOffset := int64 (trueOffset cd + int k),
               calls := calls cd @ [c]\<rparr>,
            Returns (take k filled, None))
         \<and> length (take k filled) = k
         \<and> length (drop k filled) = m - k \<and> 0 < m - k
         \<and> (length (cdio_data D (calls cd) c) = m \<longrightarrow> filled = cdio_data D (calls cd) c)
         \<and> Read D cd 0 = (cd, Returns ([], None))"
proof -
  define n where "n = k div BytesPerSector + 1"
  define p0 where "p0 = sbytes (sbuf (grow_sbuf cd n))"
  have lp0: "length p0 = m"
    using grow_sbuf_exact [of cd n] scratch by (simp add: p0_def n_def m)
  have km: "k < m"
    using dividend_less_div_times [of BytesPerSector k]
    by (simp add: m BytesPerSector_eq)
  from km lp0 have ne: "p0 \<noteq> []"
    by auto
  have al: "length p0 mod BytesPerSector = 0"
    by (simp add: lp0 m)
  have nn: "length p0 div BytesPerSector = n"
    by (simp add: lp0 m n_def BytesPerSector_eq)
  have f: "filled = overwrite p0 (cdio_data D (calls cd) c)"
    by (simp only: filled p0_def n_def)
  have lf: "length filled = m"
    by (simp add: f length_overwrite lp0)
  have c': "c = CdioReadAudioSectors (length p0)
                  (int32 (uint32 (trueOffset cd sdiv int BytesPerSector)))
                  (length p0 div BytesPerSector mod 2 ^ 32)"
    by (simp only: c lp0 nn [unfolded lp0] n_def)
  have bs: "bufferSectors D cd n =
     (cd\<lparr>sbuf := Some filled,
         bufferedOffset := int64 (bufferedOffset cd + int m),
         buf := filled,
         calls := calls cd @ [c]\<rparr>, Returns None)"
    using bufferSectors_success [OF op p0_def ne al c' ok]
    by (simp add: lp0 empty f)
  define cd1 where "cd1 = cd\<lparr>sbuf := Some filled,
         bufferedOffset := int64 (bufferedOffset cd + int m),
         buf := filled,
         calls := calls cd @ [c]\<rparr>"
  have "Read D cd k = Read D cd1 k"
    using k empty bs by (simp add: Read_refill cd1_def n_def)
  also have "\<dots> = (cd1\<lparr>buf := drop k filled, trueOffset := int64 (trueOffset cd + int k)\<rparr>,
       Returns (take k filled, None))"
    using k km lf by (subst Read_buffered) (auto simp: cd1_def Read_zero min_def)
  finally have "Read D cd k =
           (cd\<lparr>sbuf := Some filled,
               bufferedOffset := int64 (bufferedOffset cd + int m),
               buf := drop k filled,
               trueOffset := int64 (trueOffset cd + int k),
               calls := calls cd @ [c]\<rparr>,
            Returns (take k filled, None))"
    by (simp add: cd1_def)
  moreover have "filled = cdio_data D (calls cd) c" if "length (cdio_data D (calls cd) c) = m"
    using that lp0 by (simp add: f overwrite_def)
  ultimately show ?thesis
    using km lf by (simp add: Read_zero)
qed


theorem Read_empty_buffer_refill_witness:
  "IsOpen opened_cd \<and> buf opened_cd = [] \<and> slen (sbuf opened_cd) \<le> 9408
   \<and> cdio_ret example_drive (calls opened_cd) (CdioReadAudioSectors 9408 0 4) = 0
   \<and> Read example_drive opened_cd 8232 =
       (opened_cd\<lparr>sbuf := Some (replicate 2352 0 @ replicate 2352 1 @ replicate 2352 2
                                  @ replicate 2352 3),
                  bufferedOffset := 9408,
                  buf := replicate 1176 3,
                  trueOffset := 8232,
                  calls := [CdioOpen None, CdioSetSpeed 65535, CdioReadAudioSectors 9408 0 4]\<rparr>,
        Returns (replicate 2352 0 @ replicate 2352 1 @ replicate 2352 2 @ replicate 1176 3, None))"
proof -
  have op: "IsOpen opened_cd" and empty: "buf opened_cd = []"
    and scratch: "slen (sbuf opened_cd) \<le> (8232 div BytesPerSector + 1) * BytesPerSector"
    by (simp_all add: eval_defs)
  have m: "(9408 :: nat) = (8232 div BytesPerSector + 1) * BytesPerSector"
    by (simp add: BytesPerSector_eq)
  have c: "CdioReadAudioSectors 9408 0 4 =
      CdioReadAudioSectors 9408 (int32 (uint32 (trueOffset opened_cd sdiv int BytesPerSector)))
        ((8232 div BytesPerSector + 1) mod 2 ^ 32)"
    by (simp add: eval_defs)
  have ok: "cdio_ret example_drive (calls opened_cd) (CdioReadAudioSectors 9408 0 4) = 0"
    by (simp add: example_drive_def)
  have filled: "replicate 2352 0 @ replicate 2352 1 @ replicate 2352 2 @ replicate 2352 (3 :: byte)
      = overwrite (sbytes (sbuf (grow_sbuf opened_cd (8232 div BytesPerSector + 1))))
          (cdio_data example_drive (calls opened_cd) (CdioReadAudioSectors 9408 0 4))"
    by (simp add: eval_defs grow_sbuf_def example_drive_def)
  from Read_empty_buffer_refill [OF op empty _ scratch m c ok filled] op empty scratch ok
  show ?thesis
    by (simp add: eval_defs)
qed

section \<open>The sector count of bufferSectors\<close>

text \<open>
  Claim C4 at a failing input. After \<open>Open\<close>, \<open>Read\<close> of 7056 bytes (which grows the
  scratch buffer to four sectors) and \<open>Read\<close> of 2352 bytes (which empties the buffer),
  \<open>bufferSectors(1)\<close> asks the drive for 9408 bytes, four sectors from sector 4, and
  appends all 9408 to the buffer, where the claim has it ask for exactly 2352. The same
  call is what a \<open>Read\<close> of one byte makes in that state.
\<close>

theorem bufferSectors_requests_whole_scratch:
  "IsOpen (fst (Read example_drive (fst (Read example_drive opened_cd 7056)) 2352))
   \<and> buf (fst (Read example_drive (fst (Read example_drive opened_cd 7056)) 2352)) = []
   \<and> calls (fst (bufferSectors example_drive
         (fst (Read example_drive (fst (Read example_drive opened_cd 7056)) 2352)) 1)) =
       [CdioOpen None, CdioSetSpeed 65535, CdioReadAudioSectors 9408 0 4,
        CdioReadAudioSectors 9408 4 4]
   \<and> length (buf (fst (bufferSectors example_drive
         (fst (Read example_drive (fst (Read example_drive opened_cd 7056)) 2352)) 1))) = 9408
   \<and> calls (fst (Read example_drive
         (fst (Read example_drive (fst (Read example_drive opened_cd 7056)) 2352)) 1)) =
       [CdioOpen None, CdioSetSpeed 65535, CdioReadAudioSectors 9408 0 4,
        CdioReadAudioSectors 9408 4 4]"
  by (simp add: run_defs)

section \<open>The slow path of Seek\<close>

text \<open>
  Claim C1 at a failing input. On the freshly opened stream, \<open>Seek(7056, io.SeekStart)\<close>
  (the start of sector 3) returns 7056 with no error, but the one device read it makes
  is of sector 0, the sector of the old \<open>bufferedOffset\<close>: the buffer then holds
  sector 0, and the next \<open>Read\<close> of a sector returns sector 0's bytes, not sector 3's.
\<close>

theorem Seek_slow_path_wrong_sector:
  "Seek example_drive opened_cd 7056 0 =
     (opened_cd\<lparr>buf := replicate 2352 0, sbuf := Some (replicate 2352 0),
                bufferedOffset := 2352, trueOffset := 7056,
                calls := [CdioOpen None, CdioSetSpeed 65535, CdioReadAudioSectors 2352 0 1]\<rparr>,
      Returns (7056, None))
   \<and> snd (Read example_drive (fst (Seek example_drive opened_cd 7056 0)) 2352)
       = Returns (replicate 2352 0, None)
   \<and> disc_sectors 3 1 = replicate 2352 3"
  by (simp add: run_defs)


text \<open>
  Claim C2 at the same failing input. The invariant holds on the freshly opened stream;
  after the successful \<open>Seek(7056, io.SeekStart)\<close>, \<open>trueOffset = 7056\<close> exceeds
  \<open>bufferedOffset = 2352\<close> while 2352 bytes are buffered: the invariant is broken.
\<close>

theorem Seek_slow_path_breaks_invariant:
  "stream_inv opened_cd
   \<and> snd (Seek example_drive opened_cd 7056 0) = Returns (7056, None)
   \<and> trueOffset (fst (Seek example_drive opened_cd 7056 0)) = 7056
   \<and> bufferedOffset (fst (Seek example_drive opened_cd 7056 0)) = 2352
   \<and> length (buf (fst (Seek example_drive opened_cd 7056 0))) = 2352
   \<and> \<not> stream_inv (fst (Seek example_drive opened_cd 7056 0))"
  by (simp add: run_defs stream_inv_def)


end
